theory Spec2Isabelle
  imports Main "HOL-Library.Word"
begin

unbundle bit_operations_syntax

section \<open>Library functions used by the handlers\<close>

text \<open>
  The Go program is a single package: \<open>videoHandler\<close> serves the video file with
  byte-range support, \<open>getLocalIPForGateway\<close> / \<open>localIPString\<close> (and the older
  \<open>getLocalIP\<close>) find the LAN address, and \<open>main\<close> wires them together.
  The handlers call a handful of standard-library functions; each is modelled here
  after its Go implementation. Go strings are byte sequences, so a Go string is a
  \<open>string\<close> (a list of 8-bit \<open>char\<close>s) and file contents are byte lists of the
  same type.
\<close>

subsection \<open>int64 arithmetic\<close>

text \<open>
  \<open>fileSize\<close>, \<open>start\<close> and \<open>end\<close> are \<open>int64\<close>. They are modelled as
  \<open>int\<close> with the two's-complement wrap-around of every subtraction and addition
  written out.
\<close>

definition minInt64 :: int where
  "minInt64 = - (2 ^ 63)"

definition maxInt64 :: int where
  "maxInt64 = 2 ^ 63 - 1"

definition wrap64 :: "int \<Rightarrow> int" where
  "wrap64 x = (x + 2 ^ 63) mod 2 ^ 64 - 2 ^ 63"

definition sub64 :: "int \<Rightarrow> int \<Rightarrow> int" where
  "sub64 a b = wrap64 (a - b)"

definition add64 :: "int \<Rightarrow> int \<Rightarrow> int" where
  "add64 a b = wrap64 (a + b)"

definition in_int64 :: "int \<Rightarrow> bool" where
  "in_int64 x \<longleftrightarrow> minInt64 \<le> x \<and> x \<le> maxInt64"

subsection \<open>strconv: decimal formatting and parsing\<close>

text \<open>The digit table of \<open>strconv\<close>, indexed by a digit value below 10.\<close>

definition digit_char :: "nat \<Rightarrow> char" where
  "digit_char d = ''0123456789'' ! d"

definition is_digit :: "char \<Rightarrow> bool" where
  "is_digit c \<longleftrightarrow> (of_char (CHR ''0'') :: nat) \<le> of_char c \<and> (of_char c :: nat) \<le> of_char (CHR ''9'')"

definition digit_val :: "char \<Rightarrow> nat" where
  "digit_val c = of_char c - of_char (CHR ''0'')"

text \<open>The decimal digits of a natural number, most significant first.\<close>

fun decimal :: "nat \<Rightarrow> string" where
  "decimal n = (if n < 10 then [digit_char n]
                else decimal (n div 10) @ [digit_char (n mod 10)])"

declare decimal.simps [simp del]

text \<open>\<open>strconv.FormatInt(i, 10)\<close>; \<open>%d\<close> in \<open>fmt.Sprintf\<close> prints the same text.\<close>

definition FormatInt :: "int \<Rightarrow> string" where
  "FormatInt i = (if i < 0 then CHR ''-'' # decimal (nat (- i)) else decimal (nat i))"

datatype num_error = ErrSyntax | ErrRange

definition maxUint64 :: nat where
  "maxUint64 = 2 ^ 64 - 1"

text \<open>
  The digit loop of \<open>strconv.ParseUint(s, 10, 64)\<close>. A byte that is not a decimal
  digit is a syntax error (a letter has digit value at least 10, which is not below
  the base). \<open>cutoff = maxUint64/10 + 1\<close> is the least \<open>n\<close> with \<open>n * 10\<close> beyond
  \<open>uint64\<close>; the second test is Go's \<open>n1 < n || n1 > maxVal\<close>, which holds exactly
  when \<open>n * 10 + d\<close> does not fit in 64 bits.
\<close>

fun parse_digits :: "string \<Rightarrow> nat \<Rightarrow> num_error + nat" where
  "parse_digits [] n = Inr n"
| "parse_digits (c # cs) n =
     (if \<not> is_digit c then Inl ErrSyntax
      else if n \<ge> maxUint64 div 10 + 1 then Inl ErrRange
      else if n * 10 + digit_val c > maxUint64 then Inl ErrRange
      else parse_digits cs (n * 10 + digit_val c))"

definition ParseUint :: "string \<Rightarrow> num_error + nat" where
  "ParseUint s = (if s = [] then Inl ErrSyntax else parse_digits s 0)"

text \<open>
  \<open>strconv.ParseInt(s, 10, 64)\<close>: an optional sign, then \<open>ParseUint\<close>, then the
  range check against \<open>1 << 63\<close>. When \<open>ParseUint\<close> reports a range error it
  returns \<open>maxUint64\<close>, which fails both range checks, so the error stays a range
  error.
\<close>

definition ParseInt :: "string \<Rightarrow> num_error + int" where
  "ParseInt s =
     (case s of
        [] \<Rightarrow> Inl ErrSyntax
      | c # cs \<Rightarrow>
          (let neg = (c = CHR ''-'');
               rest = (if c = CHR ''+'' \<or> c = CHR ''-'' then cs else s)
           in case ParseUint rest of
                Inl e \<Rightarrow> Inl e
              | Inr un \<Rightarrow>
                  if \<not> neg \<and> un \<ge> 2 ^ 63 then Inl ErrRange
                  else if neg \<and> un > 2 ^ 63 then Inl ErrRange
                  else Inr (if neg then - int un else int un)))"

subsection \<open>strings\<close>

text \<open>\<open>strings.TrimPrefix(s, prefix)\<close>: \<open>s\<close> unchanged when it lacks the prefix.\<close>

definition strings_TrimPrefix :: "string \<Rightarrow> string \<Rightarrow> string" where
  "strings_TrimPrefix s pre =
     (if take (length pre) s = pre then drop (length pre) s else s)"

text \<open>
  \<open>strings.Split(s, sep)\<close> for a separator of one byte, the only way the program
  calls it: the fields between the occurrences of the separator, so the result has
  one more element than there are separators (and is \<open>[""]\<close> for the empty string).
\<close>

fun strings_Split :: "string \<Rightarrow> char \<Rightarrow> string list" where
  "strings_Split [] sep = [[]]"
| "strings_Split (c # cs) sep =
     (if c = sep then [] # strings_Split cs sep
      else (case strings_Split cs sep of
              [] \<Rightarrow> [[c]]
            | p # ps \<Rightarrow> (c # p) # ps))"


subsection \<open>os.File\<close>

text \<open>
  What the handler can observe of the file behind \<open>videoFilePath\<close>: its bytes,
  whether \<open>Stat\<close> fails (with the error text), whether the file is seekable (a
  FIFO or a terminal is not), and the read offset of the open handle. A file system
  maps a path to the result of \<open>os.Open\<close>: an error text or a file.
\<close>

record os_file =
  contents :: string
  stat_err :: "string option"
  seekable :: bool
  offset :: nat

type_synonym filesystem = "string \<Rightarrow> string + os_file"

definition os_Open :: "filesystem \<Rightarrow> string \<Rightarrow> string + os_file" where
  "os_Open fs path =
     (case fs path of Inl err \<Rightarrow> Inl err | Inr f \<Rightarrow> Inr (f\<lparr>offset := 0\<rparr>))"

text \<open>\<open>file.Stat()\<close> followed by \<open>fileInfo.Size()\<close>.\<close>

definition file_Stat :: "os_file \<Rightarrow> string + int" where
  "file_Stat f =
     (case stat_err f of Some err \<Rightarrow> Inl err | None \<Rightarrow> Inr (int (length (contents f))))"

text \<open>
  \<open>file.Seek(off, io.SeekStart)\<close>: fails on a negative offset and on a file that
  is not seekable; an offset past the end is accepted.
\<close>

definition file_Seek :: "os_file \<Rightarrow> int \<Rightarrow> os_file option" where
  "file_Seek f off =
     (if off < 0 \<or> \<not> seekable f then None else Some (f\<lparr>offset := nat off\<rparr>))"

subsection \<open>http.ResponseWriter\<close>

text \<open>
  The writer follows the contract of the \<open>http.ResponseWriter\<close> interface: the
  header map can be changed at any time, but the first \<open>WriteHeader\<close> fixes the
  status code and the headers that are sent; a later \<open>WriteHeader\<close> is ignored
  and later header changes have no effect; \<open>Write\<close> sends status 200 first when no
  status has been sent. Written bytes are accumulated. What the transport does with
  the response afterwards (a client that disconnects, the server's own treatment of
  a \<open>Content-Length\<close> that does not match) is outside the handler and is not
  modelled.
\<close>

type_synonym header = "string \<rightharpoonup> string list"

definition Header_Get :: "header \<Rightarrow> string \<Rightarrow> string" where
  "Header_Get h k = (case h k of None \<Rightarrow> [] | Some [] \<Rightarrow> [] | Some (v # _) \<Rightarrow> v)"

record ResponseWriter =
  rw_header :: header
  rw_status :: "nat option"
  rw_sent :: header
  rw_body :: string

definition Header_Set :: "ResponseWriter \<Rightarrow> string \<Rightarrow> string \<Rightarrow> ResponseWriter" where
  "Header_Set w k v = w\<lparr>rw_header := (rw_header w)(k \<mapsto> [v])\<rparr>"

definition Header_Del :: "ResponseWriter \<Rightarrow> string \<Rightarrow> ResponseWriter" where
  "Header_Del w k = w\<lparr>rw_header := (rw_header w)(k := None)\<rparr>"

definition WriteHeader :: "ResponseWriter \<Rightarrow> nat \<Rightarrow> ResponseWriter" where
  "WriteHeader w code =
     (case rw_status w of
        Some _ \<Rightarrow> w
      | None \<Rightarrow> w\<lparr>rw_status := Some code, rw_sent := rw_header w\<rparr>)"

definition Write :: "ResponseWriter \<Rightarrow> string \<Rightarrow> ResponseWriter" where
  "Write w bs =
     (let w' = (if rw_status w = None then WriteHeader w 200 else w)
      in w'\<lparr>rw_body := rw_body w' @ bs\<rparr>)"

text \<open>
  \<open>http.Error(w, msg, code)\<close>: drops \<open>Content-Length\<close>, sets the content type,
  calls \<open>WriteHeader(code)\<close> and prints the message and a newline.
\<close>

definition http_Error :: "ResponseWriter \<Rightarrow> string \<Rightarrow> nat \<Rightarrow> ResponseWriter" where
  "http_Error w msg code =
     (let w1 = Header_Del w ''Content-Length'';
          w2 = Header_Set w1 ''Content-Type'' ''text/plain; charset=utf-8'';
          w3 = Header_Set w2 ''X-Content-Type-Options'' ''nosniff'';
          w4 = WriteHeader w3 code
      in Write w4 (msg @ [CHR 0x0A]))"

text \<open>
  \<open>io.CopyN(w, file, n)\<close> copies from the current offset until \<open>n\<close> bytes are
  copied or the file ends, and nothing at all for \<open>n \<le> 0\<close>; \<open>io.Copy(w, file)\<close>
  copies to the end of the file. Neither calls \<open>Write\<close> when there is nothing to
  copy.
\<close>

definition io_CopyN :: "ResponseWriter \<Rightarrow> os_file \<Rightarrow> int \<Rightarrow> ResponseWriter" where
  "io_CopyN w f n =
     (let bs = (if n \<le> 0 then [] else take (nat n) (drop (offset f) (contents f)))
      in if bs = [] then w else Write w bs)"

definition io_Copy :: "ResponseWriter \<Rightarrow> os_file \<Rightarrow> ResponseWriter" where
  "io_Copy w f =
     (let bs = drop (offset f) (contents f)
      in if bs = [] then w else Write w bs)"

section \<open>The video handler\<close>

record request =
  req_header :: header

datatype range_error = MalformedRange | IndexOutOfRange

text \<open>
  The range computation of \<open>videoHandler\<close>, for a non-empty header value. The
  source has it inline, from the assignment of \<open>rangeParts\<close> to the clamp of
  \<open>end\<close>; it is a function of its own here, so that the validated pair
  \<open>(start, end)\<close> has a name. \<open>MalformedRange\<close> is one of the two
  \<open>ParseInt\<close> failures, which the handler answers with status 400;
  \<open>IndexOutOfRange\<close> is the panic of \<open>rangeParts[0]\<close> on an empty slice.
\<close>

definition rangeParts :: "string \<Rightarrow> string list" where
  "rangeParts rangeHeader = strings_Split (strings_TrimPrefix rangeHeader ''bytes='') (CHR ''-'')"

definition parseRange :: "string \<Rightarrow> int \<Rightarrow> range_error + int \<times> int" where
  "parseRange rangeHeader fileSize =
     (case rangeParts rangeHeader of
        [] \<Rightarrow> Inl IndexOutOfRange
      | p0 # ps \<Rightarrow>
          (case ParseInt p0 of
             Inl _ \<Rightarrow> Inl MalformedRange
           | Inr start \<Rightarrow>
               (case (case ps of
                        [] \<Rightarrow> Inr (sub64 fileSize 1)
                      | p1 # _ \<Rightarrow> if p1 \<noteq> [] then ParseInt p1 else Inr (sub64 fileSize 1)) of
                  Inl _ \<Rightarrow> Inl MalformedRange
                | Inr end0 \<Rightarrow>
                    Inr (start, if end0 > sub64 fileSize 1 then sub64 fileSize 1 else end0))))"

text \<open>
  Names for what the specification calls the start part and the end part of a
  header: the first and the second field of \<open>rangeParts\<close>, the end part being
  empty when there is no second field. A part parses as a non-negative integer when
  \<open>ParseInt\<close> accepts it with a result of at least 0.
\<close>

definition start_part :: "string \<Rightarrow> string" where
  "start_part rangeHeader = (case rangeParts rangeHeader of [] \<Rightarrow> [] | p0 # _ \<Rightarrow> p0)"

definition end_part :: "string \<Rightarrow> string" where
  "end_part rangeHeader = (case rangeParts rangeHeader of p0 # p1 # _ \<Rightarrow> p1 | _ \<Rightarrow> [])"

definition parses_nonneg :: "string \<Rightarrow> bool" where
  "parses_nonneg s = (case ParseInt s of Inl _ \<Rightarrow> False | Inr i \<Rightarrow> 0 \<le> i)"

definition content_range :: "int \<Rightarrow> int \<Rightarrow> int \<Rightarrow> string" where
  "content_range start end fileSize =
     ''bytes '' @ FormatInt start @ ''-'' @ FormatInt end @ ''/'' @ FormatInt fileSize"

text \<open>
  \<open>videoHandler\<close>, with the file system and the global \<open>videoFilePath\<close> as
  arguments. The result is \<open>None\<close> when the handler panics. The deferred
  \<open>file.Close()\<close> has no effect on the response and is left out.
\<close>

definition videoHandler ::
  "filesystem \<Rightarrow> string \<Rightarrow> ResponseWriter \<Rightarrow> request \<Rightarrow> ResponseWriter option" where
  "videoHandler fs videoFilePath w r =
     (case os_Open fs videoFilePath of
        Inl err \<Rightarrow> Some (http_Error w (''Failed to open video file: '' @ err) 500)
      | Inr f \<Rightarrow>
          (case file_Stat f of
             Inl err \<Rightarrow> Some (http_Error w (''Failed to get file information: '' @ err) 500)
           | Inr fileSize \<Rightarrow>
               (let rangeHeader = Header_Get (req_header r) ''Range'' in
                if rangeHeader \<noteq> [] then
                  (case parseRange rangeHeader fileSize of
                     Inl IndexOutOfRange \<Rightarrow> None
                   | Inl MalformedRange \<Rightarrow> Some (http_Error w ''Invalid Range request'' 400)
                   | Inr (start, end) \<Rightarrow>
                       (let n = add64 (sub64 end start) 1;
                            w1 = Header_Set w ''Content-Range'' (content_range start end fileSize);
                            w2 = Header_Set w1 ''Content-Length'' (FormatInt n);
                            w3 = Header_Set w2 ''Accept-Ranges'' ''bytes'';
                            w4 = WriteHeader w3 206
                        in case file_Seek f start of
                             None \<Rightarrow> Some (http_Error w4 ''Failed to seek file'' 500)
                           | Some f' \<Rightarrow> Some (io_CopyN w4 f' n)))
                else
                  (let w1 = Header_Set w ''Content-Length'' (FormatInt fileSize);
                       w2 = Header_Set w1 ''Accept-Ranges'' ''bytes''
                   in Some (io_Copy w2 f)))))"

text \<open>
  One request against the stream route: the handler runs on a fresh writer, and when
  it returns without having sent a status the server sends 200 with the headers set
  so far. The response is what has then been sent.
\<close>

record response =
  status :: nat
  headers :: header
  body :: string

definition new_writer :: ResponseWriter where
  "new_writer = \<lparr>rw_header = Map.empty, rw_status = None, rw_sent = Map.empty, rw_body = []\<rparr>"

definition finish :: "ResponseWriter \<Rightarrow> response" where
  "finish w =
     (case rw_status w of
        None \<Rightarrow> \<lparr>status = 200, headers = rw_header w, body = rw_body w\<rparr>
      | Some code \<Rightarrow> \<lparr>status = code, headers = rw_sent w, body = rw_body w\<rparr>)"

definition serve_video :: "filesystem \<Rightarrow> string \<Rightarrow> request \<Rightarrow> response option" where
  "serve_video fs videoFilePath r = map_option finish (videoHandler fs videoFilePath new_writer r)"


section \<open>Finding the LAN address\<close>

subsection \<open>net.IP\<close>

text \<open>
  A \<open>net.IP\<close> is a byte slice of length 4 or 16 (\<open>nil\<close> is the empty list here),
  a \<open>net.IPMask\<close> likewise. The functions below follow package \<open>net\<close>.
\<close>

type_synonym IP = "8 word list"
type_synonym IPMask = "8 word list"

definition v4InV6Prefix :: IP where
  "v4InV6Prefix = [0, 0, 0, 0, 0, 0, 0, 0, 0, 0, 0xff, 0xff]"

definition IPv4 :: "8 word \<Rightarrow> 8 word \<Rightarrow> 8 word \<Rightarrow> 8 word \<Rightarrow> IP" where
  "IPv4 a b c d = v4InV6Prefix @ [a, b, c, d]"

definition IPv4bcast :: IP where
  "IPv4bcast = IPv4 255 255 255 255"

definition IPv4zero :: IP where
  "IPv4zero = IPv4 0 0 0 0"

definition IPv6unspecified :: IP where
  "IPv6unspecified = [0, 0, 0, 0, 0, 0, 0, 0, 0, 0, 0, 0, 0, 0, 0, 0]"

definition IPv6loopback :: IP where
  "IPv6loopback = [0, 0, 0, 0, 0, 0, 0, 0, 0, 0, 0, 0, 0, 0, 0, 1]"

definition isZeros :: "IP \<Rightarrow> bool" where
  "isZeros p = list_all (\<lambda>b. b = 0) p"

text \<open>\<open>ip.To4()\<close>: the 4-byte form of an IPv4 address, \<open>None\<close> for Go's \<open>nil\<close>.\<close>

definition To4 :: "IP \<Rightarrow> IP option" where
  "To4 ip =
     (if length ip = 4 then Some ip
      else if length ip = 16 \<and> isZeros (take 10 ip) \<and> ip ! 10 = 0xff \<and> ip ! 11 = 0xff
      then Some (drop 12 ip)
      else None)"

definition IP_Equal :: "IP \<Rightarrow> IP \<Rightarrow> bool" where
  "IP_Equal ip x =
     (if length ip = length x then ip = x
      else if length ip = 4 \<and> length x = 16 then take 12 x = v4InV6Prefix \<and> ip = drop 12 x
      else if length ip = 16 \<and> length x = 4 then take 12 ip = v4InV6Prefix \<and> drop 12 ip = x
      else False)"

definition IsLoopback :: "IP \<Rightarrow> bool" where
  "IsLoopback ip =
     (case To4 ip of Some ip4 \<Rightarrow> ip4 ! 0 = 127 | None \<Rightarrow> IP_Equal ip IPv6loopback)"

definition IsUnspecified :: "IP \<Rightarrow> bool" where
  "IsUnspecified ip \<longleftrightarrow> IP_Equal ip IPv4zero \<or> IP_Equal ip IPv6unspecified"

definition IsMulticast :: "IP \<Rightarrow> bool" where
  "IsMulticast ip =
     (case To4 ip of
        Some ip4 \<Rightarrow> ip4 ! 0 AND 0xf0 = 0xe0
      | None \<Rightarrow> length ip = 16 \<and> ip ! 0 = 0xff)"

definition IsLinkLocalUnicast :: "IP \<Rightarrow> bool" where
  "IsLinkLocalUnicast ip =
     (case To4 ip of
        Some ip4 \<Rightarrow> ip4 ! 0 = 169 \<and> ip4 ! 1 = 254
      | None \<Rightarrow> length ip = 16 \<and> ip ! 0 = 0xfe \<and> ip ! 1 AND 0xc0 = 0x80)"

definition IsGlobalUnicast :: "IP \<Rightarrow> bool" where
  "IsGlobalUnicast ip \<longleftrightarrow>
     (length ip = 4 \<or> length ip = 16) \<and>
     \<not> IP_Equal ip IPv4bcast \<and>
     \<not> IsUnspecified ip \<and>
     \<not> IsLoopback ip \<and>
     \<not> IsMulticast ip \<and>
     \<not> IsLinkLocalUnicast ip"

text \<open>
  \<open>networkNumberAndMask\<close> and \<open>(*IPNet).Contains\<close>. The former returns
  \<open>nil, nil\<close> for a malformed network, here a pair of empty lists.
\<close>

definition networkNumberAndMask :: "IP \<Rightarrow> IPMask \<Rightarrow> IP \<times> IPMask" where
  "networkNumberAndMask nip msk =
     (case (case To4 nip of
              Some ip4 \<Rightarrow> Some ip4
            | None \<Rightarrow> if length nip \<noteq> 16 then None else Some nip) of
        None \<Rightarrow> ([], [])
      | Some ip \<Rightarrow>
          if length msk = 4 then (if length ip \<noteq> 4 then ([], []) else (ip, msk))
          else if length msk = 16 then (if length ip = 4 then (ip, drop 12 msk) else (ip, msk))
          else ([], []))"

definition Contains :: "IP \<Rightarrow> IPMask \<Rightarrow> IP \<Rightarrow> bool" where
  "Contains nip msk ip =
     (let (nn, m) = networkNumberAndMask nip msk;
          ip' = (case To4 ip of Some x \<Rightarrow> x | None \<Rightarrow> ip);
          l = length ip'
      in if l \<noteq> length nn then False
         else list_all (\<lambda>i. nn ! i AND m ! i = ip' ! i AND m ! i) [0..<l])"

text \<open>
  \<open>ip.String()\<close> for an address with a 4-byte form, which is all that the program
  prints: the four bytes in decimal, separated by dots. The other text forms (of
  \<open>nil\<close>, of an IPv6 address, of a slice of a wrong length) are never reached by
  the callers and are left empty.
\<close>

definition IP_String :: "IP \<Rightarrow> string" where
  "IP_String ip =
     (case To4 ip of
        Some ip4 \<Rightarrow>
          decimal (unat (ip4 ! 0)) @ ''.'' @ decimal (unat (ip4 ! 1)) @ ''.'' @
          decimal (unat (ip4 ! 2)) @ ''.'' @ decimal (unat (ip4 ! 3))
      | None \<Rightarrow> [])"

subsection \<open>Interfaces\<close>

text \<open>
  A \<open>net.Addr\<close> is a \<open>*net.IPNet\<close> (address and mask) or some other
  implementation of the interface. A \<open>net.Interface\<close> has a name, flags, and the
  result of \<open>iface.Addrs()\<close>, an error text or the address list.
\<close>

datatype Addr = IPNet IP IPMask | OtherAddr

record Interface =
  Name :: string
  Flags :: "32 word"
  Addrs :: "string + Addr list"

definition FlagUp :: "32 word" where
  "FlagUp = 1"

text \<open>
  The inner loop of \<open>getLocalIPForGateway\<close> over the addresses of one interface:
  the first IPv4, global-unicast, non-loopback address whose network contains the
  gateway.
\<close>

fun subnet_addr :: "IP \<Rightarrow> Addr list \<Rightarrow> IP option" where
  "subnet_addr gwIP [] = None"
| "subnet_addr gwIP (OtherAddr # addrs) = subnet_addr gwIP addrs"
| "subnet_addr gwIP (IPNet nip msk # addrs) =
     (case To4 nip of
        None \<Rightarrow> subnet_addr gwIP addrs
      | Some ipv4 \<Rightarrow>
          if \<not> IsGlobalUnicast ipv4 \<or> IsLoopback ipv4 then subnet_addr gwIP addrs
          else if Contains nip msk gwIP then Some ipv4
          else subnet_addr gwIP addrs)"

text \<open>
  The outer loop: interfaces that are down, and interfaces whose addresses cannot
  be read (a warning is logged, which is not modelled), are skipped.
\<close>

fun scan_interfaces :: "IP \<Rightarrow> Interface list \<Rightarrow> IP option" where
  "scan_interfaces gwIP [] = None"
| "scan_interfaces gwIP (iface # interfaces) =
     (if Flags iface AND FlagUp = 0 then scan_interfaces gwIP interfaces
      else case Addrs iface of
             Inl err \<Rightarrow> scan_interfaces gwIP interfaces
           | Inr addrs \<Rightarrow>
               (case subnet_addr gwIP addrs of
                  Some ipv4 \<Rightarrow> Some ipv4
                | None \<Rightarrow> scan_interfaces gwIP interfaces))"

datatype ip_error = InterfacesError string | NoSubnetAddress IP

text \<open>\<open>getLocalIPForGateway\<close>; the first argument is the result of \<open>net.Interfaces()\<close>.\<close>

definition getLocalIPForGateway :: "string + Interface list \<Rightarrow> IP \<Rightarrow> ip_error + IP" where
  "getLocalIPForGateway net_Interfaces gwIP =
     (case net_Interfaces of
        Inl err \<Rightarrow> Inl (InterfacesError err)
      | Inr interfaces \<Rightarrow>
          (case scan_interfaces gwIP interfaces of
             Some ipv4 \<Rightarrow> Inr ipv4
           | None \<Rightarrow> Inl (NoSubnetAddress gwIP)))"

datatype resolve_error = GatewayError string | LocalIPError ip_error | NilLocalIP

text \<open>\<open>localIPString\<close>; the first argument is the result of \<open>gateway.DiscoverGateway()\<close>.\<close>

definition localIPString ::
  "string + IP \<Rightarrow> string + Interface list \<Rightarrow> resolve_error + string" where
  "localIPString DiscoverGateway net_Interfaces =
     (case DiscoverGateway of
        Inl err \<Rightarrow> Inl (GatewayError err)
      | Inr gwIP \<Rightarrow>
          (case getLocalIPForGateway net_Interfaces gwIP of
             Inl err \<Rightarrow> Inl (LocalIPError err)
           | Inr localIP \<Rightarrow>
               if localIP = [] then Inl NilLocalIP else Inr (IP_String localIP)))"

text \<open>
  The older \<open>getLocalIP\<close>; the argument is the result of \<open>net.InterfaceAddrs()\<close>.
\<close>

fun first_ipv4 :: "Addr list \<Rightarrow> string" where
  "first_ipv4 [] = ''localhost''"
| "first_ipv4 (OtherAddr # addrs) = first_ipv4 addrs"
| "first_ipv4 (IPNet nip msk # addrs) =
     (if \<not> IsLoopback nip then
        (if To4 nip \<noteq> None then IP_String nip else first_ipv4 addrs)
      else first_ipv4 addrs)"

definition getLocalIP :: "string + Addr list \<Rightarrow> string" where
  "getLocalIP net_InterfaceAddrs =
     (case net_InterfaceAddrs of
        Inl err \<Rightarrow> ''localhost''
      | Inr addrs \<Rightarrow> first_ipv4 addrs)"

subsection \<open>Startup\<close>

text \<open>
  \<open>main\<close> from the parsed flags up to the point where the server is started: the
  port check, the path argument, the existence check of the file, and the address
  lookup. \<open>Exit c\<close> is \<open>os.Exit(c)\<close>; \<open>Serving url\<close> means that the server is
  started and \<open>url\<close> is printed and encoded in the QR code.
\<close>

datatype outcome = Exit nat | Serving string

definition main ::
  "int \<Rightarrow> string list \<Rightarrow> (string \<Rightarrow> bool) \<Rightarrow> string + IP \<Rightarrow> string + Interface list \<Rightarrow> outcome" where
  "main serverPort args IsNotExist DiscoverGateway net_Interfaces =
     (if serverPort < 1 \<or> serverPort > 65535 then Exit 1
      else case args of
             [] \<Rightarrow> Exit 0
           | videoFilePath # _ \<Rightarrow>
               if IsNotExist videoFilePath then Exit 1
               else (case localIPString DiscoverGateway net_Interfaces of
                       Inl err \<Rightarrow> Exit 1
                     | Inr localIP \<Rightarrow>
                         Serving (''http://'' @ localIP @ '':'' @ FormatInt serverPort)))"

section \<open>Vocabulary of the specification for the address lookup\<close>

text \<open>
  An address of an interface qualifies for a gateway when it is a \<open>*net.IPNet\<close>
  with an IPv4 form that is global unicast and not loopback, and its network (the
  address under the interface's mask) contains the gateway. An interface carries
  \<open>ipv4\<close> for a gateway when it is up, its addresses can be read, and one of them
  qualifies with \<open>ipv4\<close> as its IPv4 form.
\<close>

definition qualifies :: "IP \<Rightarrow> IP \<Rightarrow> Addr \<Rightarrow> bool" where
  "qualifies gwIP ipv4 addr =
     (case addr of
        OtherAddr \<Rightarrow> False
      | IPNet nip msk \<Rightarrow>
          To4 nip = Some ipv4 \<and> IsGlobalUnicast ipv4 \<and> \<not> IsLoopback ipv4 \<and>
          Contains nip msk gwIP)"

definition carries :: "IP \<Rightarrow> Interface \<Rightarrow> IP \<Rightarrow> bool" where
  "carries gwIP iface ipv4 =
     (Flags iface AND FlagUp \<noteq> 0 \<and>
      (case Addrs iface of Inl err \<Rightarrow> False | Inr addrs \<Rightarrow> list_ex (qualifies gwIP ipv4) addrs))"

text \<open>A non-loopback IPv4 interface address, and the text printed for it.\<close>

definition non_loopback_ipv4 :: "Addr \<Rightarrow> bool" where
  "non_loopback_ipv4 addr =
     (case addr of
        OtherAddr \<Rightarrow> False
      | IPNet nip msk \<Rightarrow> \<not> IsLoopback nip \<and> To4 nip \<noteq> None)"

definition addr_text :: "Addr \<Rightarrow> string" where
  "addr_text addr = (case addr of OtherAddr \<Rightarrow> [] | IPNet nip msk \<Rightarrow> IP_String nip)"

section \<open>Example inputs\<close>

text \<open>A regular file of ten bytes, and a file system that has it under every path.\<close>

definition example_file :: os_file where
  "example_file = \<lparr>contents = ''0123456789'', stat_err = None, seekable = True, offset = 0\<rparr>"

definition example_fs :: filesystem where
  "example_fs = (\<lambda>path. Inr example_file)"

text \<open>A named pipe: it can be opened and has size 0, but cannot be positioned.\<close>

definition fifo_file :: os_file where
  "fifo_file = \<lparr>contents = [], stat_err = None, seekable = False, offset = 0\<rparr>"

definition fifo_fs :: filesystem where
  "fifo_fs = (\<lambda>path. Inr fifo_file)"

text \<open>
  A request with one \<open>Range\<close> header, a request without one, and the first value
  of a header of a response.
\<close>

definition range_request :: "string \<Rightarrow> request" where
  "range_request h = \<lparr>req_header = [''Range'' \<mapsto> [h]]\<rparr>"

definition plain_request :: request where
  "plain_request = \<lparr>req_header = Map.empty\<rparr>"

definition sent_header :: "string \<Rightarrow> response \<Rightarrow> string" where
  "sent_header k resp = Header_Get (headers resp) k"

text \<open>
  A host with a loopback interface and an Ethernet interface, both up, and the
  gateway of the Ethernet network.
\<close>

definition lo :: Interface where
  "lo = \<lparr>Name = ''lo'', Flags = 37, Addrs = Inr [IPNet (IPv4 127 0 0 1) [255, 0, 0, 0]]\<rparr>"

definition eth0 :: Interface where
  "eth0 = \<lparr>Name = ''eth0'', Flags = 51,
           Addrs = Inr [IPNet (IPv4 192 168 1 23) [255, 255, 255, 0]]\<rparr>"

definition example_gateway :: IP where
  "example_gateway = [192, 168, 1, 1]"

text \<open>The \<open>os.IsNotExist\<close> test where every path exists: it never holds.\<close>

definition every_file_exists :: "string \<Rightarrow> bool" where
  "every_file_exists path = False"

text \<open>The result of \<open>net.InterfaceAddrs()\<close> on a host with loopback only, and a LAN address.\<close>

definition loopback_addrs :: "Addr list" where
  "loopback_addrs =
     [IPNet (IPv4 127 0 0 1) [255, 0, 0, 0],
      IPNet IPv6loopback [255, 255, 255, 255, 255, 255, 255, 255,
                          255, 255, 255, 255, 255, 255, 255, 255]]"

definition lan_addr :: Addr where
  "lan_addr = IPNet (IPv4 192 168 1 23) [255, 255, 255, 0]"


section \<open>Properties of the library functions\<close>

lemma wrap64_id: "in_int64 x \<Longrightarrow> wrap64 x = x"
  by (simp add: wrap64_def in_int64_def minInt64_def maxInt64_def)

lemma digit_cases: "d < 10 \<Longrightarrow> d \<in> {0, 1, 2, 3, 4, 5, 6, 7, 8, 9::nat}"
  by auto

lemma is_digit_digit_char: "d < 10 \<Longrightarrow> is_digit (digit_char d)"
  using digit_cases [of d] by (auto simp: is_digit_def digit_char_def)

lemma digit_val_digit_char: "d < 10 \<Longrightarrow> digit_val (digit_char d) = d"
  using digit_cases [of d] by (auto simp: digit_val_def digit_char_def)

lemma parse_digits_append:
  "parse_digits (xs @ ys) n =
     (case parse_digits xs n of Inl e \<Rightarrow> Inl e | Inr m \<Rightarrow> parse_digits ys m)"
  by (induction xs arbitrary: n) auto

lemma parse_digits_decimal:
  "n \<le> maxUint64 \<Longrightarrow> parse_digits (decimal n) 0 = Inr n"
proof (induction n rule: decimal.induct)
  case (1 n)
  show ?case
  proof (cases "n < 10")
    case True
    then show ?thesis
      using "1.prems"
      by (simp add: decimal.simps [of n] is_digit_digit_char digit_val_digit_char maxUint64_def)
  next
    case False
    have q_le: "n div 10 \<le> maxUint64" using "1.prems" by simp
    have ih: "parse_digits (decimal (n div 10)) 0 = Inr (n div 10)"
      using "1.IH" False q_le by simp
    have lt: "n mod 10 < 10" by simp
    have cut: "\<not> n div 10 \<ge> maxUint64 div 10 + 1"
      using "1.prems" by (simp add: maxUint64_def)
    have recomb: "n div 10 * 10 + n mod 10 = n" by simp
    show ?thesis
      using False ih cut "1.prems"
      by (simp add: decimal.simps [of n] parse_digits_append is_digit_digit_char [OF lt]
          digit_val_digit_char [OF lt] recomb)
  qed
qed

lemma decimal_not_Nil: "decimal n \<noteq> []"
  by (subst decimal.simps) simp

lemma decimal_digits: "c \<in> set (decimal n) \<Longrightarrow> is_digit c"
proof (induction n rule: decimal.induct)
  case (1 n)
  then show ?case
    by (subst (asm) (2) decimal.simps) (auto simp: is_digit_digit_char split: if_splits)
qed


lemma is_digit_not_special:
  "is_digit c \<Longrightarrow> c \<noteq> CHR ''-'' \<and> c \<noteq> CHR ''+'' \<and> c \<noteq> CHR '',''"
  by (auto simp: is_digit_def)

lemma parse_digits_Inr_digits:
  "parse_digits s n = Inr m \<Longrightarrow> c \<in> set s \<Longrightarrow> is_digit c"
  by (induction s arbitrary: n) (auto split: if_splits)

lemma parse_digits_bound:
  "parse_digits s n = Inr m \<Longrightarrow> n \<le> maxUint64 \<Longrightarrow> m \<le> maxUint64"
  by (induction s arbitrary: n) (auto split: if_splits)

lemma ParseInt_in_int64: "ParseInt s = Inr i \<Longrightarrow> in_int64 i"
  by (cases s)
     (auto simp: ParseInt_def Let_def in_int64_def minInt64_def maxInt64_def
           split: sum.splits if_splits)

lemma ParseInt_nonneg:
  "ParseInt s = Inr i \<Longrightarrow> CHR ''-'' \<notin> set s \<Longrightarrow> 0 \<le> i"
  by (cases s) (auto simp: ParseInt_def Let_def split: sum.splits if_splits)

lemma ParseInt_no_comma:
  assumes "ParseInt s = Inr i"
  shows "CHR '','' \<notin> set s"
proof (cases s)
  case Nil
  then show ?thesis by simp
next
  case (Cons c cs)
  let ?rest = "if c = CHR ''+'' \<or> c = CHR ''-'' then cs else s"
  from assms Cons obtain un where un: "ParseUint ?rest = Inr un"
    by (auto simp: ParseInt_def Let_def split: sum.splits)
  then have "parse_digits ?rest 0 = Inr un"
    by (auto simp: ParseUint_def split: if_splits)
  then have "\<forall>x \<in> set ?rest. is_digit x"
    using parse_digits_Inr_digits by blast
  then have "\<forall>x \<in> set ?rest. x \<noteq> CHR '',''"
    using is_digit_not_special by blast
  then show ?thesis
    using Cons by (auto split: if_splits)
qed

lemma ParseInt_decimal:
  assumes "int n \<le> maxInt64"
  shows "ParseInt (decimal n) = Inr (int n)"
proof -
  obtain c cs where dec: "decimal n = c # cs"
    using decimal_not_Nil [of n] by (cases "decimal n") auto
  have "is_digit c" using decimal_digits [of c n] dec by simp
  then have nosign: "c \<noteq> CHR ''+''" "c \<noteq> CHR ''-''"
    using is_digit_not_special by auto
  have le: "n \<le> maxUint64" using assms by (simp add: maxInt64_def maxUint64_def)
  have pu: "ParseUint (c # cs) = Inr n"
    using parse_digits_decimal [OF le] dec by (simp add: ParseUint_def)
  have lt: "\<not> (2 ^ 63 \<le> n)" using assms by (simp add: maxInt64_def)
  show ?thesis
    unfolding dec using nosign pu lt by (simp add: ParseInt_def)
qed

lemma strings_Split_not_Nil: "strings_Split s sep \<noteq> []"
  by (induction s) (auto split: list.splits)

lemma strings_Split_no_sep: "sep \<notin> set s \<Longrightarrow> strings_Split s sep = [s]"
  by (induction s) auto

lemma strings_Split_append:
  "sep \<notin> set xs \<Longrightarrow> strings_Split (xs @ sep # ys) sep = xs # strings_Split ys sep"
  by (induction xs) auto

lemma strings_Split_hd:
  "strings_Split s sep = takeWhile (\<lambda>c. c \<noteq> sep) s # tl (strings_Split s sep)"
  by (induction s) (auto split: list.splits simp: strings_Split_not_Nil)

lemma strings_Split_fields: "p \<in> set (strings_Split s sep) \<Longrightarrow> sep \<notin> set p"
  by (induction s arbitrary: p) (auto split: if_splits list.splits)

lemma strings_TrimPrefix_append: "strings_TrimPrefix (pre @ s) pre = s"
  by (simp add: strings_TrimPrefix_def)

lemma decimal_no_dash: "CHR ''-'' \<notin> set (decimal n)"
  using decimal_digits is_digit_not_special by blast


lemma rangeParts_not_Nil: "rangeParts h \<noteq> []"
  by (simp add: rangeParts_def strings_Split_not_Nil)

lemma rangeParts_no_dash: "p \<in> set (rangeParts h) \<Longrightarrow> CHR ''-'' \<notin> set p"
  unfolding rangeParts_def by (rule strings_Split_fields)

lemma parseRange_no_panic: "parseRange h fileSize \<noteq> Inl IndexOutOfRange"
  using rangeParts_not_Nil [of h]
  by (auto simp: parseRange_def split: list.splits sum.splits)

lemma sub64_one: "0 \<le> fileSize \<Longrightarrow> fileSize \<le> maxInt64 \<Longrightarrow> sub64 fileSize 1 = fileSize - 1"
  by (simp add: sub64_def wrap64_id in_int64_def minInt64_def maxInt64_def)

lemma parseRange_bounds:
  assumes size: "0 \<le> fileSize" "fileSize \<le> maxInt64"
    and ok: "parseRange h fileSize = Inr (start, end)"
  shows "0 \<le> start \<and> start \<le> maxInt64 \<and> - 1 \<le> end \<and> end \<le> fileSize - 1"
proof -
  obtain p0 ps where parts: "rangeParts h = p0 # ps"
    using rangeParts_not_Nil [of h] by (cases "rangeParts h") auto
  from ok parts have st: "ParseInt p0 = Inr start"
    by (auto simp: parseRange_def split: sum.splits)
  have "CHR ''-'' \<notin> set p0" using rangeParts_no_dash [of p0 h] parts by simp
  then have s0: "0 \<le> start" using ParseInt_nonneg [OF st] by simp
  have s1: "start \<le> maxInt64" using ParseInt_in_int64 [OF st] by (simp add: in_int64_def)
  have e: "- 1 \<le> end \<and> end \<le> fileSize - 1"
  proof (cases ps)
    case Nil
    then show ?thesis
      using ok parts st size by (auto simp: parseRange_def sub64_one)
  next
    case (Cons p1 rest)
    show ?thesis
    proof (cases "p1 = []")
      case True
      then show ?thesis
        using ok parts st size Cons by (auto simp: parseRange_def sub64_one)
    next
      case False
      from ok parts st Cons False obtain end0 where e0: "ParseInt p1 = Inr end0"
        by (auto simp: parseRange_def split: sum.splits)
      have "CHR ''-'' \<notin> set p1" using rangeParts_no_dash [of p1 h] parts Cons by simp
      then have "0 \<le> end0" using ParseInt_nonneg [OF e0] by simp
      then show ?thesis
        using ok parts st size Cons False e0
        by (auto simp: parseRange_def sub64_one split: if_splits)
    qed
  qed
  show ?thesis using s0 s1 e by simp
qed

lemma range_count_no_wrap:
  assumes "0 \<le> start" "start \<le> maxInt64" "- 1 \<le> end" "end < maxInt64"
  shows "add64 (sub64 end start) 1 = end - start + 1"
proof -
  have a: "sub64 end start = end - start"
    using assms by (simp add: sub64_def wrap64_id in_int64_def minInt64_def maxInt64_def)
  show ?thesis
    using assms by (simp add: a add64_def wrap64_id in_int64_def minInt64_def maxInt64_def)
qed


lemma range_count:
  assumes "0 \<le> fileSize" "fileSize \<le> maxInt64" "parseRange h fileSize = Inr (start, end)"
  shows "add64 (sub64 end start) 1 = end - start + 1"
  using parseRange_bounds [OF assms] assms(2) by (intro range_count_no_wrap) auto

subsection \<open>What the handler sends\<close>

text \<open>
  The responses of \<open>videoHandler\<close> on a file that can be opened and measured:
  a parsed range, a malformed range, a failed seek, and no range at all.
\<close>

lemma serve_video_range:
  assumes "fs path = Inr f" and "stat_err f = None" and "seekable f"
    and "int (length (contents f)) \<le> maxInt64"
    and "Header_Get (req_header r) ''Range'' = h" and "h \<noteq> []"
    and "parseRange h (int (length (contents f))) = Inr (start, end)"
  shows "serve_video fs path r = Some
     \<lparr>status = 206,
      headers = [''Content-Range'' \<mapsto> [content_range start end (int (length (contents f)))],
                 ''Content-Length'' \<mapsto> [FormatInt (end - start + 1)],
                 ''Accept-Ranges'' \<mapsto> [''bytes'']],
      body = (if end - start + 1 \<le> 0 then []
              else take (nat (end - start + 1)) (drop (nat start) (contents f)))\<rparr>"
proof -
  have n: "add64 (sub64 end start) 1 = end - start + 1"
    using range_count [of "int (length (contents f))" h start "end"] assms by simp
  have s0: "0 \<le> start"
    using parseRange_bounds [of "int (length (contents f))" h start "end"] assms by simp
  show ?thesis
    using assms s0
    by (simp add: serve_video_def videoHandler_def os_Open_def file_Stat_def n file_Seek_def
        io_CopyN_def Write_def WriteHeader_def Header_Set_def new_writer_def finish_def Let_def)
qed

lemma serve_video_malformed:
  assumes "fs path = Inr f" and "stat_err f = None"
    and "Header_Get (req_header r) ''Range'' = h" and "h \<noteq> []"
    and "parseRange h (int (length (contents f))) = Inl MalformedRange"
  shows "serve_video fs path r = Some
     \<lparr>status = 400,
      headers = [''Content-Type'' \<mapsto> [''text/plain; charset=utf-8''],
                 ''X-Content-Type-Options'' \<mapsto> [''nosniff'']],
      body = ''Invalid Range request'' @ [CHR 0x0A]\<rparr>"
  using assms
  by (simp add: serve_video_def videoHandler_def os_Open_def file_Stat_def http_Error_def
      Write_def WriteHeader_def Header_Set_def Header_Del_def new_writer_def finish_def Let_def)

lemma serve_video_seek_failure:
  assumes "fs path = Inr f" and "stat_err f = None" and "\<not> seekable f"
    and "int (length (contents f)) \<le> maxInt64"
    and "Header_Get (req_header r) ''Range'' = h" and "h \<noteq> []"
    and "parseRange h (int (length (contents f))) = Inr (start, end)"
  shows "serve_video fs path r = Some
     \<lparr>status = 206,
      headers = [''Content-Range'' \<mapsto> [content_range start end (int (length (contents f)))],
                 ''Content-Length'' \<mapsto> [FormatInt (end - start + 1)],
                 ''Accept-Ranges'' \<mapsto> [''bytes'']],
      body = ''Failed to seek file'' @ [CHR 0x0A]\<rparr>"
proof -
  have n: "add64 (sub64 end start) 1 = end - start + 1"
    using range_count [of "int (length (contents f))" h start "end"] assms by simp
  show ?thesis
    using assms
    by (simp add: serve_video_def videoHandler_def os_Open_def file_Stat_def n file_Seek_def
        http_Error_def Write_def WriteHeader_def Header_Set_def Header_Del_def new_writer_def
        finish_def Let_def)
qed

lemma serve_video_full:
  assumes "fs path = Inr f" and "stat_err f = None"
    and "Header_Get (req_header r) ''Range'' = []"
  shows "serve_video fs path r = Some
     \<lparr>status = 200,
      headers = [''Content-Length'' \<mapsto> [FormatInt (int (length (contents f)))],
                 ''Accept-Ranges'' \<mapsto> [''bytes'']],
      body = contents f\<rparr>"
  using assms
  by (simp add: serve_video_def videoHandler_def os_Open_def file_Stat_def
      io_Copy_def Write_def WriteHeader_def Header_Set_def new_writer_def finish_def Let_def)

text \<open>The handler never panics: \<open>rangeParts\<close> has a first element.\<close>

lemma videoHandler_returns: "\<exists>w'. videoHandler fs path w r = Some w'"
proof (cases "os_Open fs path")
  case (Inl err)
  then show ?thesis by (simp add: videoHandler_def)
next
  case opened: (Inr f)
  show ?thesis
  proof (cases "file_Stat f")
    case (Inl err)
    then show ?thesis using opened by (simp add: videoHandler_def)
  next
    case (Inr fileSize)
    show ?thesis
    proof (cases "parseRange (Header_Get (req_header r) ''Range'') fileSize")
      case (Inl e)
      then show ?thesis
        using opened Inr parseRange_no_panic [of "Header_Get (req_header r) ''Range''" fileSize]
        by (cases e) (simp_all add: videoHandler_def Let_def)
    next
      case parsed: (Inr se)
      then show ?thesis
        using opened Inr
        by (cases se) (simp add: videoHandler_def Let_def split: option.splits)
    qed
  qed
qed

lemma serve_video_returns: "\<exists>resp. serve_video fs path r = Some resp"
  using videoHandler_returns [of fs path new_writer r] by (auto simp: serve_video_def)

lemma FormatInt_nat: "FormatInt (int n) = decimal n"
  by (simp add: FormatInt_def)

lemma rangeParts_pair:
  "rangeParts (''bytes='' @ decimal a @ ''-'' @ decimal b) = [decimal a, decimal b]"
proof -
  have "strings_TrimPrefix (''bytes='' @ (decimal a @ ''-'' @ decimal b)) ''bytes=''
        = decimal a @ ''-'' @ decimal b"
    by (rule strings_TrimPrefix_append)
  then show ?thesis
    by (simp add: rangeParts_def strings_Split_append strings_Split_no_sep decimal_no_dash)
qed

lemma parseRange_pair:
  assumes "int a \<le> maxInt64" and "int b \<le> maxInt64"
    and "0 \<le> fileSize" and "fileSize \<le> maxInt64"
  shows "parseRange (''bytes='' @ decimal a @ ''-'' @ decimal b) fileSize =
         Inr (int a, if int b > fileSize - 1 then fileSize - 1 else int b)"
  unfolding parseRange_def rangeParts_pair
  using assms by (simp add: ParseInt_decimal decimal_not_Nil sub64_one)

section \<open>The claims about the video handler\<close>

text \<open>
  C1. A request \<open>Range: bytes=start-end\<close> with \<open>start \<le> end < length\<close> on a file
  that can be opened, measured and positioned is answered with status 206, the
  headers \<open>Content-Range: bytes start-end/length\<close>, \<open>Content-Length: end-start+1\<close>
  and \<open>Accept-Ranges: bytes\<close>, and a body that is exactly the bytes \<open>start\<close> to
  \<open>end\<close> of the file.
\<close>

theorem range_request_served:
  assumes "fs path = Inr f" and "stat_err f = None" and "seekable f"
    and "int (length (contents f)) \<le> maxInt64"
    and "start \<le> end" and "end < length (contents f)"
    and "Header_Get (req_header r) ''Range'' = ''bytes='' @ decimal start @ ''-'' @ decimal end"
  shows "\<exists>resp. serve_video fs path r = Some resp \<and> status resp = 206 \<and>
     headers resp ''Content-Range'' =
       Some [''bytes '' @ decimal start @ ''-'' @ decimal end @ ''/'' @ decimal (length (contents f))] \<and>
     headers resp ''Content-Length'' = Some [decimal (end - start + 1)] \<and>
     headers resp ''Accept-Ranges'' = Some [''bytes''] \<and>
     body resp = take (end - start + 1) (drop start (contents f))"
proof -
  let ?h = "''bytes='' @ decimal start @ ''-'' @ decimal end"
  let ?size = "int (length (contents f))"
  have pr: "parseRange ?h ?size = Inr (int start, int end)"
    using parseRange_pair [of start "end" ?size] assms(4-6) by (simp add: maxInt64_def)
  have cnt: "int end - int start + 1 = int (end - start + 1)"
    using assms(5) by simp
  have fi: "FormatInt (int end - int start + 1) = decimal (end - start + 1)"
    by (simp only: cnt FormatInt_nat)
  have bd: "(if int end - int start + 1 \<le> 0 then []
             else take (nat (int end - int start + 1)) (drop (nat (int start)) (contents f)))
            = take (end - start + 1) (drop start (contents f))"
    by (simp only: cnt nat_int) simp
  have srv: "serve_video fs path r = Some
     \<lparr>status = 206,
      headers = [''Content-Range'' \<mapsto> [content_range (int start) (int end) ?size],
                 ''Content-Length'' \<mapsto> [FormatInt (int end - int start + 1)],
                 ''Accept-Ranges'' \<mapsto> [''bytes'']],
      body = (if int end - int start + 1 \<le> 0 then []
              else take (nat (int end - int start + 1)) (drop (nat (int start)) (contents f)))\<rparr>"
    using assms(1-4,7) pr by (intro serve_video_range [where h = ?h]) simp_all
  show ?thesis
    unfolding srv fi bd by (simp add: content_range_def FormatInt_nat)
qed

theorem range_request_served_witness:
  "example_fs ''video.mp4'' = Inr example_file \<and> seekable example_file \<and>
   (2::nat) \<le> 4 \<and> 4 < length (contents example_file) \<and>
   (\<exists>resp. serve_video example_fs ''video.mp4'' (range_request ''bytes=2-4'') = Some resp \<and>
      status resp = 206 \<and>
      headers resp ''Content-Range'' = Some [''bytes 2-4/10''] \<and>
      headers resp ''Content-Length'' = Some [''3''] \<and>
      headers resp ''Accept-Ranges'' = Some [''bytes''] \<and>
      body resp = ''234'')"
  using range_request_served [of example_fs "''video.mp4''" example_file 2 4
      "range_request ''bytes=2-4''"]
  by (simp add: example_fs_def example_file_def range_request_def Header_Get_def
      decimal.simps digit_char_def maxInt64_def)

text \<open>
  C2. A request without a \<open>Range\<close> header, or with an empty one, on a file that
  can be opened and measured is answered with status 200, \<open>Content-Length\<close> equal
  to the length of the file, \<open>Accept-Ranges: bytes\<close>, and the whole file as body.
\<close>

theorem full_request_served:
  assumes "fs path = Inr f" and "stat_err f = None"
    and "req_header r ''Range'' = None \<or> Header_Get (req_header r) ''Range'' = []"
  shows "\<exists>resp. serve_video fs path r = Some resp \<and> status resp = 200 \<and>
     headers resp ''Content-Length'' = Some [decimal (length (contents f))] \<and>
     headers resp ''Accept-Ranges'' = Some [''bytes''] \<and>
     body resp = contents f"
proof -
  have "Header_Get (req_header r) ''Range'' = []"
    using assms(3) by (auto simp: Header_Get_def)
  then show ?thesis
    using serve_video_full [of fs path f r] assms(1,2) by (simp add: FormatInt_nat)
qed

theorem full_request_served_witness:
  "example_fs ''video.mp4'' = Inr example_file \<and> stat_err example_file = None \<and>
   req_header plain_request ''Range'' = None \<and>
   (\<exists>resp. serve_video example_fs ''video.mp4'' plain_request = Some resp \<and>
      status resp = 200 \<and>
      headers resp ''Content-Length'' = Some [''10''] \<and>
      headers resp ''Accept-Ranges'' = Some [''bytes''] \<and>
      body resp = ''0123456789'')"
  using full_request_served [of example_fs "''video.mp4''" example_file plain_request]
  by (simp add: example_fs_def example_file_def plain_request_def
      decimal.simps digit_char_def)

text \<open>The definitions that evaluate the model on a concrete request.\<close>

lemmas eval_defs =
  parseRange_def rangeParts_def start_part_def end_part_def parses_nonneg_def
  strings_TrimPrefix_def ParseInt_def ParseUint_def is_digit_def digit_val_def maxUint64_def
  maxInt64_def sub64_def add64_def wrap64_def FormatInt_def decimal.simps digit_char_def
  serve_video_def videoHandler_def os_Open_def file_Stat_def file_Seek_def Header_Get_def
  Header_Set_def Header_Del_def WriteHeader_def Write_def http_Error_def io_CopyN_def
  io_Copy_def content_range_def new_writer_def finish_def sent_header_def
  example_fs_def example_file_def fifo_fs_def fifo_file_def range_request_def plain_request_def

lemma parseRange_parts:
  "parseRange h fileSize =
     (case ParseInt (start_part h) of
        Inl _ \<Rightarrow> Inl MalformedRange
      | Inr start \<Rightarrow>
          (case (if end_part h \<noteq> [] then ParseInt (end_part h) else Inr (sub64 fileSize 1)) of
             Inl _ \<Rightarrow> Inl MalformedRange
           | Inr end0 \<Rightarrow>
               Inr (start, if end0 > sub64 fileSize 1 then sub64 fileSize 1 else end0)))"
  using rangeParts_not_Nil [of h]
  by (auto simp: parseRange_def start_part_def end_part_def split: list.splits sum.splits)

lemma start_part_no_dash: "CHR ''-'' \<notin> set (start_part h)"
  using rangeParts_not_Nil [of h] rangeParts_no_dash [of "start_part h" h]
  by (auto simp: start_part_def split: list.splits)

lemma end_part_no_dash: "CHR ''-'' \<notin> set (end_part h)"
proof (cases "rangeParts h")
  case Nil
  then show ?thesis by (simp add: end_part_def)
next
  case (Cons p0 ps)
  show ?thesis
  proof (cases ps)
    case Nil
    then show ?thesis using Cons by (simp add: end_part_def)
  next
    case (Cons p1 rest)
    then have "p1 \<in> set (rangeParts h)" using \<open>rangeParts h = p0 # ps\<close> by simp
    then have "CHR ''-'' \<notin> set p1" by (rule rangeParts_no_dash)
    then show ?thesis using Cons \<open>rangeParts h = p0 # ps\<close> by (simp add: end_part_def)
  qed
qed

lemma parses_nonneg_start: "parses_nonneg (start_part h) \<longleftrightarrow> (\<exists>i. ParseInt (start_part h) = Inr i)"
  using ParseInt_nonneg [OF _ start_part_no_dash]
  by (auto simp: parses_nonneg_def split: sum.splits)

lemma parses_nonneg_end: "parses_nonneg (end_part h) \<longleftrightarrow> (\<exists>i. ParseInt (end_part h) = Inr i)"
  using ParseInt_nonneg [OF _ end_part_no_dash]
  by (auto simp: parses_nonneg_def split: sum.splits)

text \<open>
  C3. When the start part parses and the end part is absent or empty, the validated
  end is \<open>length - 1\<close>; when the end part parses to a value above \<open>length - 1\<close>,
  the validated end is \<open>length - 1\<close> as well.
\<close>

theorem end_defaults_and_clamps:
  assumes "0 \<le> fileSize" and "fileSize \<le> maxInt64"
    and "ParseInt (start_part h) = Inr start"
  shows "(end_part h = [] \<longrightarrow> parseRange h fileSize = Inr (start, fileSize - 1)) \<and>
         (\<forall>e. ParseInt (end_part h) = Inr e \<and> e > fileSize - 1 \<longrightarrow>
              parseRange h fileSize = Inr (start, fileSize - 1))"
proof -
  have s1: "sub64 fileSize 1 = fileSize - 1"
    using assms(1,2) by (rule sub64_one)
  have ne: "ParseInt (end_part h) = Inr e \<Longrightarrow> end_part h \<noteq> []" for e
    by (auto simp: ParseInt_def)
  show ?thesis
    using assms(3) ne by (auto simp: parseRange_parts s1)
qed

theorem end_defaults_and_clamps_witness:
  "ParseInt (start_part ''bytes=0-'') = Inr 0 \<and> end_part ''bytes=0-'' = [] \<and>
   parseRange ''bytes=0-'' 1000 = Inr (0, 999) \<and>
   ParseInt (start_part ''bytes=500-2000'') = Inr 500 \<and>
   ParseInt (end_part ''bytes=500-2000'') = Inr 2000 \<and>
   parseRange ''bytes=500-2000'' 1000 = Inr (500, 999)"
  using end_defaults_and_clamps [of 1000 "''bytes=0-''" 0]
    end_defaults_and_clamps [of 1000 "''bytes=500-2000''" 500]
  by (simp add: start_part_def end_part_def rangeParts_def strings_TrimPrefix_def ParseInt_def
      ParseUint_def is_digit_def digit_val_def maxUint64_def maxInt64_def)

text \<open>
  C4. A non-empty \<open>Range\<close> header whose start part does not parse as a
  non-negative integer, or whose end part is non-empty and does not parse as one, is
  answered with status 400, and the body is the error text only: no byte of the
  file is written.
\<close>

theorem malformed_range_rejected:
  assumes "fs path = Inr f" and "stat_err f = None"
    and "Header_Get (req_header r) ''Range'' = h" and "h \<noteq> []"
    and "\<not> parses_nonneg (start_part h) \<or>
         (end_part h \<noteq> [] \<and> \<not> parses_nonneg (end_part h))"
  shows "parseRange h (int (length (contents f))) = Inl MalformedRange \<and>
         (\<exists>resp. serve_video fs path r = Some resp \<and> status resp = 400 \<and>
            body resp = ''Invalid Range request'' @ [CHR 0x0A])"
proof -
  have "parseRange h (int (length (contents f))) = Inl MalformedRange"
    using assms(5)
    by (auto simp: parseRange_parts parses_nonneg_start parses_nonneg_end split: sum.splits)
  then show ?thesis
    using serve_video_malformed [of fs path f r h] assms(1-4) by simp
qed

theorem malformed_range_rejected_witness:
  "\<not> parses_nonneg (start_part ''bytes=abc-100'') \<and>
   (\<exists>resp. serve_video example_fs ''video.mp4'' (range_request ''bytes=abc-100'') = Some resp \<and>
      status resp = 400 \<and> body resp = ''Invalid Range request'' @ [CHR 0x0A]) \<and>
   parses_nonneg (start_part ''bytes=1-2x'') \<and> end_part ''bytes=1-2x'' \<noteq> [] \<and>
   \<not> parses_nonneg (end_part ''bytes=1-2x'') \<and>
   (\<exists>resp. serve_video example_fs ''video.mp4'' (range_request ''bytes=1-2x'') = Some resp \<and>
      status resp = 400 \<and> body resp = ''Invalid Range request'' @ [CHR 0x0A])"
  using malformed_range_rejected [of example_fs "''video.mp4''" example_file
      "range_request ''bytes=abc-100''" "''bytes=abc-100''"]
    malformed_range_rejected [of example_fs "''video.mp4''" example_file
      "range_request ''bytes=1-2x''" "''bytes=1-2x''"]
  by (simp add: example_fs_def example_file_def range_request_def Header_Get_def
      start_part_def end_part_def parses_nonneg_def rangeParts_def strings_TrimPrefix_def
      ParseInt_def ParseUint_def is_digit_def digit_val_def maxUint64_def)

lemma rangeParts_multi:
  "\<exists>more. rangeParts (''bytes='' @ decimal a @ ''-'' @ decimal b @ '','' @ rest) =
     decimal a # (decimal b @ '','' @ takeWhile (\<lambda>c. c \<noteq> CHR ''-'') rest) # more"
proof -
  let ?tail = "decimal b @ '','' @ rest"
  have trim: "strings_TrimPrefix (''bytes='' @ (decimal a @ ''-'' @ ?tail)) ''bytes=''
        = decimal a @ ''-'' @ ?tail"
    by (rule strings_TrimPrefix_append)
  have sp: "strings_Split (decimal a @ ''-'' @ ?tail) (CHR ''-'')
        = decimal a # strings_Split ?tail (CHR ''-'')"
    by (simp add: strings_Split_append decimal_no_dash)
  have tw: "takeWhile (\<lambda>c. c \<noteq> CHR ''-'') ?tail
        = decimal b @ '','' @ takeWhile (\<lambda>c. c \<noteq> CHR ''-'') rest"
    by (subst takeWhile_append2) (use decimal_no_dash [of b] in auto)
  have "strings_Split ?tail (CHR ''-'')
        = (decimal b @ '','' @ takeWhile (\<lambda>c. c \<noteq> CHR ''-'') rest)
          # tl (strings_Split ?tail (CHR ''-''))"
    using strings_Split_hd [of ?tail "CHR ''-''"] unfolding tw .
  then obtain more where m: "strings_Split ?tail (CHR ''-'')
        = (decimal b @ '','' @ takeWhile (\<lambda>c. c \<noteq> CHR ''-'') rest) # more"
    by blast
  show ?thesis
    unfolding rangeParts_def trim sp m by blast
qed

lemma parseRange_first_two:
  "take 2 (rangeParts h') = take 2 (rangeParts h) \<Longrightarrow> parseRange h' fileSize = parseRange h fileSize"
  by (auto simp: parseRange_def split: list.splits)

text \<open>
  C5, as the code has it. The parser reads the first two \<open>-\<close>-delimited fields
  only, and a comma is not a separator: in a multi-range header \<open>bytes=a-b,...\<close>
  the second field contains the comma and does not parse, so the request is
  answered with status 400 and no range is served.
\<close>

theorem multi_range_rejected:
  assumes "fs path = Inr f" and "stat_err f = None"
    and "Header_Get (req_header r) ''Range'' = h"
    and "h = ''bytes='' @ decimal a @ ''-'' @ decimal b @ '','' @ rest"
  shows "parseRange h (int (length (contents f))) = Inl MalformedRange \<and>
         (\<exists>resp. serve_video fs path r = Some resp \<and> status resp = 400 \<and>
            body resp = ''Invalid Range request'' @ [CHR 0x0A]) \<and>
         (\<forall>h'. take 2 (rangeParts h') = take 2 (rangeParts h) \<longrightarrow>
            parseRange h' (int (length (contents f))) = Inl MalformedRange)"
proof -
  let ?size = "int (length (contents f))"
  let ?p1 = "decimal b @ '','' @ takeWhile (\<lambda>c. c \<noteq> CHR ''-'') rest"
  obtain more where parts: "rangeParts h = decimal a # ?p1 # more"
    using rangeParts_multi [of a b rest] assms(4) by auto
  have "CHR '','' \<in> set ?p1" by simp
  then have bad: "\<exists>e. ParseInt ?p1 = Inl e"
    using ParseInt_no_comma [of ?p1] by (cases "ParseInt ?p1") auto
  have mal: "parseRange h ?size = Inl MalformedRange"
    using bad by (auto simp: parseRange_def parts split: sum.splits)
  have ne: "h \<noteq> []" using assms(4) by simp
  have others: "\<forall>h'. take 2 (rangeParts h') = take 2 (rangeParts h) \<longrightarrow>
            parseRange h' ?size = Inl MalformedRange"
  proof (intro allI impI)
    fix h'
    assume "take 2 (rangeParts h') = take 2 (rangeParts h)"
    then have "parseRange h' ?size = parseRange h ?size"
      by (rule parseRange_first_two)
    then show "parseRange h' ?size = Inl MalformedRange"
      using mal by simp
  qed
  have srv: "\<exists>resp. serve_video fs path r = Some resp \<and> status resp = 400 \<and>
            body resp = ''Invalid Range request'' @ [CHR 0x0A]"
    using mal serve_video_malformed [of fs path f r h] assms(1-3) ne by simp
  show ?thesis
    using mal srv others by blast
qed

theorem multi_range_rejected_witness:
  "parseRange ''bytes=0-10,20-30'' 10 = Inl MalformedRange \<and>
   (\<exists>resp. serve_video example_fs ''video.mp4'' (range_request ''bytes=0-10,20-30'') = Some resp \<and>
      status resp = 400 \<and> body resp = ''Invalid Range request'' @ [CHR 0x0A]) \<and>
   take 2 (rangeParts ''bytes=0-10,20-99'') = take 2 (rangeParts ''bytes=0-10,20-30'') \<and>
   parseRange ''bytes=0-10,20-99'' 10 = Inl MalformedRange"
proof -
  have h: "''bytes=0-10,20-30'' = ''bytes='' @ decimal 0 @ ''-'' @ decimal 10 @ '','' @ ''20-30''"
    by (simp add: decimal.simps digit_char_def)
  have f: "example_fs ''video.mp4'' = Inr example_file"
    by (simp add: example_fs_def)
  have st: "stat_err example_file = None"
    by (simp add: example_file_def)
  have g: "Header_Get (req_header (range_request ''bytes=0-10,20-30'')) ''Range'' = ''bytes=0-10,20-30''"
    by (simp add: range_request_def Header_Get_def)
  have len: "int (length (contents example_file)) = 10"
    by (simp add: example_file_def)
  have eq: "take 2 (rangeParts ''bytes=0-10,20-99'') = take 2 (rangeParts ''bytes=0-10,20-30'')"
    by (simp add: rangeParts_def strings_TrimPrefix_def)
  show ?thesis
    using multi_range_rejected [of example_fs "''video.mp4''" example_file
        "range_request ''bytes=0-10,20-30''" "''bytes=0-10,20-30''" 0 10 "''20-30''",
        OF f st g h] eq
    unfolding len by blast
qed

theorem multi_range_counterexample:
  "parseRange ''bytes=0-10,20-30'' 1000 = Inl MalformedRange \<and>
   parseRange ''bytes=0-10,20-30'' 1000 \<noteq> Inr (0, 10) \<and>
   map_option status (serve_video example_fs ''video.mp4'' (range_request ''bytes=0-10,20-30''))
     = Some 400"
  by (simp add: eval_defs)

lemma rangeParts_without_prefix:
  "take 6 h \<noteq> ''bytes='' \<Longrightarrow> rangeParts (''bytes='' @ h) = rangeParts h"
proof -
  assume no_prefix: "take 6 h \<noteq> ''bytes=''"
  have six: "length ''bytes='' = 6"
    by simp
  have "strings_TrimPrefix h ''bytes='' = h"
    unfolding strings_TrimPrefix_def six using no_prefix by simp
  moreover have "strings_TrimPrefix (''bytes='' @ h) ''bytes='' = h"
    by (rule strings_TrimPrefix_append)
  ultimately show ?thesis
    by (simp only: rangeParts_def)
qed

lemma serve_video_same_range:
  assumes "Header_Get (req_header r) ''Range'' = h" and "h \<noteq> []"
    and "Header_Get (req_header r') ''Range'' = h'" and "h' \<noteq> []"
    and "\<And>fileSize. parseRange h fileSize = parseRange h' fileSize"
  shows "serve_video fs path r = serve_video fs path r'"
proof (cases "os_Open fs path")
  case (Inl err)
  then show ?thesis
    by (simp add: serve_video_def videoHandler_def)
next
  case opened: (Inr f)
  show ?thesis
  proof (cases "file_Stat f")
    case (Inl err)
    then show ?thesis
      using opened by (simp add: serve_video_def videoHandler_def)
  next
    case (Inr fileSize)
    then show ?thesis
      using opened assms(1-4) assms(5) [of fileSize]
      by (simp add: serve_video_def videoHandler_def Let_def)
  qed
qed

text \<open>
  C6, as the code has it. The prefix \<open>bytes=\<close> is removed when the header has it
  and is not required: a non-empty header without the prefix is parsed as it
  stands, and gets the response that the same text with the prefix gets.
\<close>

theorem prefix_is_optional:
  assumes "Header_Get (req_header r) ''Range'' = h" and "h \<noteq> []"
    and "take 6 h \<noteq> ''bytes=''"
    and "Header_Get (req_header r') ''Range'' = ''bytes='' @ h"
  shows "parseRange h fileSize = parseRange (''bytes='' @ h) fileSize \<and>
         serve_video fs path r = serve_video fs path r'"
proof -
  have parts: "rangeParts (''bytes='' @ h) = rangeParts h"
    using assms(3) by (rule rangeParts_without_prefix)
  have pr: "parseRange h n = parseRange (''bytes='' @ h) n" for n
    by (simp only: parseRange_def parts)
  have "serve_video fs path r = serve_video fs path r'"
    using assms(1,2,4) pr by (intro serve_video_same_range [where h = h]) auto
  then show ?thesis
    using pr by simp
qed

theorem prefix_is_optional_witness:
  "take 6 ''5-7'' \<noteq> ''bytes='' \<and>
   parseRange ''5-7'' 10 = parseRange ''bytes=5-7'' 10 \<and>
   serve_video example_fs ''video.mp4'' (range_request ''5-7'') =
   serve_video example_fs ''video.mp4'' (range_request ''bytes=5-7'')"
  using prefix_is_optional [of "range_request ''5-7''" "''5-7''" "range_request ''bytes=5-7''"
      10 example_fs "''video.mp4''"]
  by (simp add: range_request_def Header_Get_def)

theorem prefix_counterexample:
  "parseRange ''5-7'' 10 = Inr (5, 7) \<and>
   map_option status (serve_video example_fs ''video.mp4'' (range_request ''5-7'')) = Some 206 \<and>
   map_option (sent_header ''Content-Range'')
     (serve_video example_fs ''video.mp4'' (range_request ''5-7'')) = Some ''bytes 5-7/10'' \<and>
   map_option body (serve_video example_fs ''video.mp4'' (range_request ''5-7'')) = Some ''567''"
  by (simp add: eval_defs)

text \<open>
  C7, at a file that cannot be positioned. The handler has already sent status 206
  and the range headers when \<open>Seek\<close> fails, so the status 500 that it then passes
  to \<open>http.Error\<close> is ignored: the response keeps status 206 and its body is the
  error text. No byte of the file is copied.
\<close>

theorem seek_failure_keeps_206:
  "map_option status (serve_video fifo_fs ''video.mp4'' (range_request ''bytes=0-'')) = Some 206 \<and>
   map_option status (serve_video fifo_fs ''video.mp4'' (range_request ''bytes=0-'')) \<noteq> Some 500 \<and>
   map_option (sent_header ''Content-Range'')
     (serve_video fifo_fs ''video.mp4'' (range_request ''bytes=0-'')) = Some ''bytes 0--1/0''"
  by (simp add: eval_defs)




section \<open>The claims about the address lookup\<close>

text \<open>The definitions that evaluate the address lookup on a concrete host.\<close>

lemmas net_defs =
  v4InV6Prefix_def IPv4_def IPv4bcast_def IPv4zero_def IPv6unspecified_def IPv6loopback_def
  isZeros_def To4_def IP_Equal_def IsLoopback_def IsUnspecified_def IsMulticast_def
  IsLinkLocalUnicast_def IsGlobalUnicast_def networkNumberAndMask_def Contains_def
  IP_String_def FlagUp_def getLocalIPForGateway_def localIPString_def getLocalIP_def main_def
  qualifies_def carries_def non_loopback_ipv4_def addr_text_def
  lo_def eth0_def example_gateway_def every_file_exists_def loopback_addrs_def lan_addr_def
  decimal.simps digit_char_def FormatInt_def

text \<open>For 4-byte addresses, \<open>Contains\<close> compares the masked bytes.\<close>

lemma Contains_ipv4:
  assumes "length nip = 4" and "length msk = 4" and "length gwIP = 4"
  shows "Contains nip msk gwIP \<longleftrightarrow> (\<forall>i < 4. nip ! i AND msk ! i = gwIP ! i AND msk ! i)"
  using assms by (auto simp: Contains_def networkNumberAndMask_def To4_def list_all_iff)








lemma IP_String_IPv4:
  "IP_String (IPv4 a b c d) =
     decimal (unat a) @ ''.'' @ decimal (unat b) @ ''.'' @ decimal (unat c) @ ''.'' @ decimal (unat d)"
  by (simp add: IP_String_def To4_def IPv4_def v4InV6Prefix_def isZeros_def)

lemma first_ipv4_find:
  "first_ipv4 addrs =
     (case find non_loopback_ipv4 addrs of None \<Rightarrow> ''localhost'' | Some addr \<Rightarrow> addr_text addr)"
proof -
  have other: "\<not> non_loopback_ipv4 OtherAddr"
    and ipnet: "non_loopback_ipv4 (IPNet nip msk) \<longleftrightarrow> \<not> IsLoopback nip \<and> To4 nip \<noteq> None"
    and shown: "addr_text (IPNet nip msk) = IP_String nip" for nip msk
    by (simp_all add: non_loopback_ipv4_def addr_text_def)
  show ?thesis
    by (induction addrs rule: first_ipv4.induct) (simp_all add: other ipnet shown)
qed

text \<open>
  C9. \<open>getLocalIP\<close> returns the text of the first interface address that is an
  IPv4 address and not loopback, and \<open>localhost\<close> when there is none: when no
  address qualifies (a host with loopback addresses only) and when the addresses
  cannot be read.
\<close>

theorem fallback_address:
  "getLocalIP (Inr addrs) =
     (case find non_loopback_ipv4 addrs of
        None \<Rightarrow> ''localhost''
      | Some addr \<Rightarrow> addr_text addr) \<and>
   ((\<forall>addr \<in> set addrs. \<not> non_loopback_ipv4 addr) \<longrightarrow> getLocalIP (Inr addrs) = ''localhost'') \<and>
   getLocalIP (Inl err) = ''localhost''"
proof -
  have "find non_loopback_ipv4 addrs = None" if "\<forall>addr \<in> set addrs. \<not> non_loopback_ipv4 addr"
    using that by (simp add: find_None_iff)
  then show ?thesis
    by (auto simp: getLocalIP_def first_ipv4_find)
qed

theorem fallback_address_witness:
  "find non_loopback_ipv4 (loopback_addrs @ [lan_addr, OtherAddr]) = Some lan_addr \<and>
   getLocalIP (Inr (loopback_addrs @ [lan_addr, OtherAddr])) = ''192.168.1.23'' \<and>
   \<not> non_loopback_ipv4 (loopback_addrs ! 0) \<and> \<not> non_loopback_ipv4 (loopback_addrs ! 1) \<and>
   getLocalIP (Inr loopback_addrs) = ''localhost''"
proof -
  have fnd: "find non_loopback_ipv4 (loopback_addrs @ [lan_addr, OtherAddr]) = Some lan_addr"
    by (simp add: net_defs)
  have shown: "addr_text lan_addr = ''192.168.1.23''"
    by (simp add: net_defs)
  have lb: "\<not> non_loopback_ipv4 (loopback_addrs ! 0)" "\<not> non_loopback_ipv4 (loopback_addrs ! 1)"
    by (simp_all add: net_defs)
  have only_lb: "\<forall>addr \<in> set loopback_addrs. \<not> non_loopback_ipv4 addr"
    by (simp add: net_defs)
  have "getLocalIP (Inr (loopback_addrs @ [lan_addr, OtherAddr])) = ''192.168.1.23''"
    using fallback_address [of "loopback_addrs @ [lan_addr, OtherAddr]"] fnd shown by simp
  moreover have "getLocalIP (Inr loopback_addrs) = ''localhost''"
    using fallback_address [of loopback_addrs] only_lb by blast
  ultimately show ?thesis
    using fnd lb by blast
qed

end
